theory Spec2Isabelle
  imports Main
begin

section \<open>The rectangle factory\<close>

text \<open>
  \<^verbatim>\<open>function Rectangle(width, height)\<close> returns an object literal with the two fields and
  the method \<^verbatim>\<open>getArea\<close>, which multiplies the fields of its receiver. The number type is
  left open: any type with a multiplication can stand for the numbers of the source.
\<close>

record 'a rectangle =
  width :: 'a
  height :: 'a

definition Rectangle :: "'a \<Rightarrow> 'a \<Rightarrow> 'a rectangle" where
  "Rectangle w h = \<lparr>width = w, height = h\<rparr>"

definition getArea :: "'a::times rectangle \<Rightarrow> 'a" where
  "getArea this = width this * height this"

section \<open>The selector builder: objects and the store\<close>

text \<open>
  Every builder object has the data fields of the literal \<^verbatim>\<open>cssSelectorBuilder\<close>. The
  methods are own properties as well, so the spread \<^verbatim>\<open>{ ...this }\<close> copies them and every
  object answers to the same methods. The field \<^verbatim>\<open>rightOrder\<close> is initialised by the
  literal, copied by the spread and assigned nowhere, so it is the constant below. The
  arrays held in \<^verbatim>\<open>currentOrder\<close> are never updated in place (a new array is assigned each
  time), so the field holds the list itself.
\<close>

record builder =
  result :: string
  isSelectorHaveElement :: bool
  isSelectorHaveId :: bool
  isSelectorHavePseudoElement :: bool
  currentOrder :: "string list"

definition rightOrder :: "string list" where
  "rightOrder =
     [''element'', ''id'', ''class'', ''attribute'', ''pseudo-class'', ''pseudo-element'']"

definition cssSelectorBuilder :: builder where
  "cssSelectorBuilder =
     \<lparr>result = '''',
      isSelectorHaveElement = False,
      isSelectorHaveId = False,
      isSelectorHavePseudoElement = False,
      currentOrder = []\<rparr>"

text \<open>
  Objects live in a store and are named by references; a method call that returns
  \<^verbatim>\<open>copyObj\<close> allocates a new object at the end of the store. The literal
  \<^verbatim>\<open>cssSelectorBuilder\<close> is the object at reference \<open>0\<close> of the initial store.
\<close>

type_synonym ref = nat

type_synonym heap = "builder list"

definition template :: ref where
  "template = 0"

definition initial_heap :: heap where
  "initial_heap = [cssSelectorBuilder]"

datatype error = Error string

definition order_message :: string where
  "order_message =
     ''Selector parts should be arranged in the following order: element, id, class, attribute, pseudo-class, pseudo-element''"

definition unique_message :: string where
  "unique_message =
     ''Element, id and pseudo-element should not occur more then one time inside the selector''"

definition throw :: "error \<Rightarrow> heap \<Rightarrow> (error + ref) \<times> heap" where
  "throw e h = (Inl e, h)"

definition return_new :: "builder \<Rightarrow> heap \<Rightarrow> (error + ref) \<times> heap" where
  "return_new copyObj h = (Inr (length h), h @ [copyObj])"

section \<open>Array primitives used by the order check\<close>

fun indexOf_from :: "'a list \<Rightarrow> 'a \<Rightarrow> int \<Rightarrow> int" where
  "indexOf_from [] x i = - 1"
| "indexOf_from (y # ys) x i = (if y = x then i else indexOf_from ys x (i + 1))"

definition indexOf :: "'a list \<Rightarrow> 'a \<Rightarrow> int" where
  "indexOf xs x = indexOf_from xs x 0"

definition slice :: "'a list \<Rightarrow> int \<Rightarrow> 'a list" where
  "slice xs start =
     (if start < 0 then drop (nat (int (length xs) + start)) xs else drop (nat start) xs)"

definition includes_elem :: "'a list \<Rightarrow> 'a \<Rightarrow> bool" where
  "includes_elem xs x = (x \<in> set xs)"

definition some :: "'a list \<Rightarrow> ('a \<Rightarrow> bool) \<Rightarrow> bool" where
  "some xs p = list_ex p xs"

section \<open>The methods of the builder\<close>

definition isOrderRight :: "builder \<Rightarrow> string \<Rightarrow> bool" where
  "isOrderRight this currentSelector =
     (let patternArr = slice rightOrder (indexOf rightOrder currentSelector + 1)
      in if some (currentOrder this) (\<lambda>sel. includes_elem patternArr sel) then False else True)"

definition element :: "string \<Rightarrow> ref \<Rightarrow> heap \<Rightarrow> (error + ref) \<times> heap" where
  "element val this h =
     (if \<not> isOrderRight (h ! this) ''element'' then throw (Error order_message) h
      else if isSelectorHaveElement (h ! this) then throw (Error unique_message) h
      else
        let copyObj = h ! this;
            copyObj = copyObj\<lparr>result := result copyObj @ val\<rparr>;
            copyObj = copyObj\<lparr>isSelectorHaveElement := True\<rparr>;
            copyObj = copyObj\<lparr>currentOrder := currentOrder copyObj @ [''element'']\<rparr>
        in return_new copyObj h)"

definition id_sel :: "string \<Rightarrow> ref \<Rightarrow> heap \<Rightarrow> (error + ref) \<times> heap" where
  "id_sel val this h =
     (if \<not> isOrderRight (h ! this) ''id'' then throw (Error order_message) h
      else if isSelectorHaveId (h ! this) then throw (Error unique_message) h
      else
        let copyObj = h ! this;
            copyObj = copyObj\<lparr>result := result copyObj @ ''#'' @ val\<rparr>;
            copyObj = copyObj\<lparr>isSelectorHaveId := True\<rparr>;
            copyObj = copyObj\<lparr>currentOrder := currentOrder copyObj @ [''id'']\<rparr>
        in return_new copyObj h)"

definition class_sel :: "string \<Rightarrow> ref \<Rightarrow> heap \<Rightarrow> (error + ref) \<times> heap" where
  "class_sel val this h =
     (if \<not> isOrderRight (h ! this) ''class'' then throw (Error order_message) h
      else
        let copyObj = h ! this;
            copyObj = copyObj\<lparr>result := result copyObj @ ''.'' @ val\<rparr>;
            copyObj = copyObj\<lparr>currentOrder := currentOrder copyObj @ [''class'']\<rparr>
        in return_new copyObj h)"

definition attr :: "string \<Rightarrow> ref \<Rightarrow> heap \<Rightarrow> (error + ref) \<times> heap" where
  "attr val this h =
     (if \<not> isOrderRight (h ! this) ''attribute'' then throw (Error order_message) h
      else
        let copyObj = h ! this;
            copyObj = copyObj\<lparr>result := result copyObj @ ''['' @ val @ '']''\<rparr>;
            copyObj = copyObj\<lparr>currentOrder := currentOrder copyObj @ [''attribute'']\<rparr>
        in return_new copyObj h)"

definition pseudoClass :: "string \<Rightarrow> ref \<Rightarrow> heap \<Rightarrow> (error + ref) \<times> heap" where
  "pseudoClass val this h =
     (if \<not> isOrderRight (h ! this) ''pseudo-class'' then throw (Error order_message) h
      else
        let copyObj = h ! this;
            copyObj = copyObj\<lparr>result := result copyObj @ '':'' @ val\<rparr>;
            copyObj = copyObj\<lparr>currentOrder := currentOrder copyObj @ [''pseudo-class'']\<rparr>
        in return_new copyObj h)"

definition pseudoElement :: "string \<Rightarrow> ref \<Rightarrow> heap \<Rightarrow> (error + ref) \<times> heap" where
  "pseudoElement val this h =
     (if \<not> isOrderRight (h ! this) ''pseudo-element'' then throw (Error order_message) h
      else if isSelectorHavePseudoElement (h ! this) then throw (Error unique_message) h
      else
        let copyObj = h ! this;
            copyObj = copyObj\<lparr>result := result copyObj @ ''::'' @ val\<rparr>;
            copyObj = copyObj\<lparr>isSelectorHavePseudoElement := True\<rparr>;
            copyObj = copyObj\<lparr>currentOrder := currentOrder copyObj @ [''pseudo-element'']\<rparr>
        in return_new copyObj h)"

text \<open>
  \<^verbatim>\<open>stringify\<close> writes to its receiver: it returns the text the receiver held and leaves
  the receiver with the empty text and the empty kind sequence.
\<close>

definition stringify :: "ref \<Rightarrow> heap \<Rightarrow> string \<times> heap" where
  "stringify this h =
     (let shouldReturn = result (h ! this);
          h = h[this := (h ! this)\<lparr>result := ''''\<rparr>];
          h = h[this := (h ! this)\<lparr>currentOrder := []\<rparr>]
      in (shouldReturn, h))"

text \<open>
  \<^verbatim>\<open>combine\<close> copies its receiver first, then renders the first operand, then the second,
  and stores the joined text in the copy.
\<close>

definition combine :: "ref \<Rightarrow> ref \<Rightarrow> string \<Rightarrow> ref \<Rightarrow> heap \<Rightarrow> ref \<times> heap" where
  "combine this selector1 combinator selector2 h =
     (let copyObj = h ! this;
          (s1, h) = stringify selector1 h;
          (s2, h) = stringify selector2 h;
          copyObj = copyObj\<lparr>result := s1 @ '' '' @ combinator @ '' '' @ s2\<rparr>
      in (length h, h @ [copyObj]))"

section \<open>Chains of calls\<close>

datatype kind = Element | Id | Class | Attribute | PseudoClass | PseudoElement

fun kind_name :: "kind \<Rightarrow> string" where
  "kind_name Element = ''element''"
| "kind_name Id = ''id''"
| "kind_name Class = ''class''"
| "kind_name Attribute = ''attribute''"
| "kind_name PseudoClass = ''pseudo-class''"
| "kind_name PseudoElement = ''pseudo-element''"

text \<open>The rank of a kind is its position in \<^verbatim>\<open>rightOrder\<close>.\<close>

definition rank :: "kind \<Rightarrow> nat" where
  "rank k = nat (indexOf rightOrder (kind_name k))"

fun add_fragment :: "kind \<Rightarrow> string \<Rightarrow> ref \<Rightarrow> heap \<Rightarrow> (error + ref) \<times> heap" where
  "add_fragment Element val this h = element val this h"
| "add_fragment Id val this h = id_sel val this h"
| "add_fragment Class val this h = class_sel val this h"
| "add_fragment Attribute val this h = attr val this h"
| "add_fragment PseudoClass val this h = pseudoClass val this h"
| "add_fragment PseudoElement val this h = pseudoElement val this h"

text \<open>
  A chain \<^verbatim>\<open>b.k1(v1).k2(v2)...\<close> calls each method on the object the previous call
  returned; an exception ends the chain.
\<close>

fun chain :: "(kind \<times> string) list \<Rightarrow> ref \<Rightarrow> heap \<Rightarrow> (error + ref) \<times> heap" where
  "chain [] this h = (Inr this, h)"
| "chain ((k, val) # calls) this h =
     (case add_fragment k val this h of
        (Inl e, h') \<Rightarrow> (Inl e, h')
      | (Inr r, h') \<Rightarrow> chain calls r h')"

text \<open>The text each kind of fragment contributes.\<close>

fun rendered :: "kind \<times> string \<Rightarrow> string" where
  "rendered (Element, val) = val"
| "rendered (Id, val) = ''#'' @ val"
| "rendered (Class, val) = ''.'' @ val"
| "rendered (Attribute, val) = ''['' @ val @ '']''"
| "rendered (PseudoClass, val) = '':'' @ val"
| "rendered (PseudoElement, val) = ''::'' @ val"

section \<open>Programs over the store\<close>


text \<open>Several chains built one after another, each starting at the template.\<close>

fun build_all :: "(kind \<times> string) list list \<Rightarrow> heap \<Rightarrow> heap" where
  "build_all [] h = h"
| "build_all (calls # rest) h = build_all rest (snd (chain calls template h))"

text \<open>
  A client program is a sequence of method calls on objects of the store; it reaches the
  fields through the methods only. Any object can be the receiver of any method, since
  the spread copies the methods too. A call is
  possible only on references that exist; \<open>run\<close> gives the store after the sequence, and
  \<open>None\<close> where a call names a reference that does not exist yet. A call that throws
  leaves the store as it is and the sequence goes on (the client caught the exception).
\<close>

datatype call =
    Fragment kind string ref
  | Combine ref ref string ref
  | Stringify ref

fun call_refs :: "call \<Rightarrow> ref list" where
  "call_refs (Fragment k val this) = [this]"
| "call_refs (Combine this selector1 combinator selector2) = [this, selector1, selector2]"
| "call_refs (Stringify this) = [this]"

fun exec :: "call \<Rightarrow> heap \<Rightarrow> heap" where
  "exec (Fragment k val this) h = snd (add_fragment k val this h)"
| "exec (Combine this selector1 combinator selector2) h =
     snd (combine this selector1 combinator selector2 h)"
| "exec (Stringify this) h = snd (stringify this h)"

fun run :: "call list \<Rightarrow> heap \<Rightarrow> heap option" where
  "run [] h = Some h"
| "run (c # cs) h =
     (if list_all (\<lambda>r. r < length h) (call_refs c) then run cs (exec c h) else None)"


section \<open>Auxiliary notions for the proofs\<close>

text \<open>
  The three methods with a uniqueness check differ only in the flag they test and set;
  \<open>extend\<close> is the object a successful call returns, as a function of the receiver.
\<close>

fun has_flag :: "kind \<Rightarrow> builder \<Rightarrow> bool" where
  "has_flag Element b = isSelectorHaveElement b"
| "has_flag Id b = isSelectorHaveId b"
| "has_flag PseudoElement b = isSelectorHavePseudoElement b"
| "has_flag k b = False"

fun set_flag :: "kind \<Rightarrow> builder \<Rightarrow> builder" where
  "set_flag Element b = b\<lparr>isSelectorHaveElement := True\<rparr>"
| "set_flag Id b = b\<lparr>isSelectorHaveId := True\<rparr>"
| "set_flag PseudoElement b = b\<lparr>isSelectorHavePseudoElement := True\<rparr>"
| "set_flag k b = b"

definition extend :: "kind \<times> string \<Rightarrow> builder \<Rightarrow> builder" where
  "extend c b =
     (set_flag (fst c) b)\<lparr>result := result b @ rendered c,
                          currentOrder := currentOrder b @ [kind_name (fst c)]\<rparr>"

fun unique_kind :: "kind \<Rightarrow> bool" where
  "unique_kind Element = True"
| "unique_kind Id = True"
| "unique_kind PseudoElement = True"
| "unique_kind k = False"

section \<open>Properties of the order check and of single calls\<close>

lemma rank_simps [simp]:
  "rank Element = 0" "rank Id = 1" "rank Class = 2"
  "rank Attribute = 3" "rank PseudoClass = 4" "rank PseudoElement = 5"
  by (simp_all add: rank_def indexOf_def rightOrder_def)

lemma kind_name_inj: "kind_name k = kind_name k' \<longleftrightarrow> k = k'"
  by (cases k; cases k'; simp)

lemma kind_name_after:
  "kind_name k' \<in> set (slice rightOrder (indexOf rightOrder (kind_name k) + 1)) \<longleftrightarrow> rank k < rank k'"
  by (cases k; cases k'; simp add: slice_def indexOf_def rightOrder_def)

lemma isOrderRight_iff:
  "isOrderRight b s \<longleftrightarrow>
     (\<forall>x \<in> set (currentOrder b). x \<notin> set (slice rightOrder (indexOf rightOrder s + 1)))"
  by (simp add: isOrderRight_def some_def includes_elem_def list_ex_iff)

lemma add_fragment_eq:
  "add_fragment k val this h =
     (if \<not> isOrderRight (h ! this) (kind_name k) then (Inl (Error order_message), h)
      else if has_flag k (h ! this) then (Inl (Error unique_message), h)
      else (Inr (length h), h @ [extend (k, val) (h ! this)]))"
  by (cases k)
     (simp_all add: element_def id_sel_def class_sel_def attr_def pseudoClass_def
        pseudoElement_def throw_def return_new_def extend_def Let_def)


section \<open>Properties of chains\<close>

lemma result_extend [simp]: "result (extend c b) = result b @ rendered c"
  by (cases "fst c") (simp_all add: extend_def)

lemma currentOrder_extend [simp]:
  "currentOrder (extend c b) = currentOrder b @ [kind_name (fst c)]"
  by (cases "fst c") (simp_all add: extend_def)

lemma has_flag_extend [simp]:
  "has_flag k (extend c b) \<longleftrightarrow> has_flag k b \<or> (k = fst c \<and> unique_kind k)"
  by (cases k; cases "fst c") (simp_all add: extend_def)

lemma result_fold_extend:
  "result (fold extend calls b) = result b @ concat (map rendered calls)"
  by (induction calls arbitrary: b) simp_all

lemma currentOrder_fold_extend:
  "currentOrder (fold extend calls b) = currentOrder b @ map (kind_name \<circ> fst) calls"
  by (induction calls arbitrary: b) simp_all

lemma has_flag_fold_extend:
  "has_flag k (fold extend calls b) \<longleftrightarrow>
     has_flag k b \<or> (k \<in> fst ` set calls \<and> unique_kind k)"
  by (induction calls arbitrary: b) auto

lemma add_fragment_Inr:
  "add_fragment k val this h = (Inr r, h') \<Longrightarrow>
     r = length h \<and> h' = h @ [extend (k, val) (h ! this)]"
  by (simp add: add_fragment_eq split: if_splits)

lemma add_fragment_Inl:
  "add_fragment k val this h = (Inl e, h') \<Longrightarrow>
     h' = h \<and> (e = Error order_message \<or> e = Error unique_message)"
  by (auto simp add: add_fragment_eq split: if_splits)

lemma chain_Inr:
  "chain calls this h = (Inr r, h') \<Longrightarrow> this < length h \<Longrightarrow>
     r < length h' \<and> h' ! r = fold extend calls (h ! this) \<and> take (length h) h' = h"
proof (induction calls arbitrary: this h)
  case Nil
  then show ?case by simp
next
  case (Cons c calls)
  obtain k val where c: "c = (k, val)" by (cases c)
  from Cons.prems(1) c obtain r1 h1
    where step: "add_fragment k val this h = (Inr r1, h1)"
      and rest: "chain calls r1 h1 = (Inr r, h')"
    by (auto split: prod.splits sum.splits)
  from add_fragment_Inr [OF step]
  have r1: "r1 = length h" and h1: "h1 = h @ [extend (k, val) (h ! this)]" by simp_all
  have "r1 < length h1" using r1 h1 by simp
  from Cons.IH [OF rest this]
  have ih: "r < length h'" "h' ! r = fold extend calls (h1 ! r1)" "take (length h1) h' = h1"
    by simp_all
  have "take (length h) (take (length h1) h') = h" using ih(3) h1 by simp
  then have "take (length h) h' = h" using h1 by (simp add: min_def)
  moreover have "h1 ! r1 = extend c (h ! this)" using r1 h1 c by simp
  ultimately show ?case using ih by simp
qed

lemma chain_succeeds:
  assumes "sorted (map (\<lambda>c. rank (fst c)) calls)"
    and "\<forall>x \<in> set (currentOrder (h ! this)). \<forall>c \<in> set calls.
           x \<notin> set (slice rightOrder (indexOf rightOrder (kind_name (fst c)) + 1))"
    and "\<forall>c \<in> set calls. \<not> has_flag (fst c) (h ! this)"
    and "\<forall>k. unique_kind k \<longrightarrow> count_list (map fst calls) k \<le> 1"
  shows "\<exists>r h'. chain calls this h = (Inr r, h')"
  using assms
proof (induction calls arbitrary: this h)
  case Nil
  then show ?case by simp
next
  case (Cons c calls)
  obtain k val where c: "c = (k, val)" by (cases c)
  let ?b = "h ! this"
  let ?h1 = "h @ [extend (k, val) ?b]"
  have ord: "isOrderRight ?b (kind_name k)"
    unfolding isOrderRight_iff using Cons.prems(2) c by simp
  have flg: "\<not> has_flag k ?b" using Cons.prems(3) c by simp
  have step: "add_fragment k val this h = (Inr (length h), ?h1)"
    using ord flg by (simp add: add_fragment_eq)
  have obj: "?h1 ! length h = extend (k, val) ?b" by simp
  have p1: "sorted (map (\<lambda>c. rank (fst c)) calls)" using Cons.prems(1) by simp
  have le: "\<forall>c' \<in> set calls. rank k \<le> rank (fst c')" using Cons.prems(1) c by auto
  have p2: "\<forall>x \<in> set (currentOrder (?h1 ! length h)). \<forall>c' \<in> set calls.
              x \<notin> set (slice rightOrder (indexOf rightOrder (kind_name (fst c')) + 1))"
  proof (intro ballI)
    fix x c'
    assume x: "x \<in> set (currentOrder (?h1 ! length h))" and c': "c' \<in> set calls"
    from x have "x \<in> set (currentOrder ?b) \<or> x = kind_name k" by (auto simp only: obj currentOrder_extend set_append fst_conv list.set)
    then show "x \<notin> set (slice rightOrder (indexOf rightOrder (kind_name (fst c')) + 1))"
    proof
      assume "x \<in> set (currentOrder ?b)"
      then show ?thesis using Cons.prems(2) c' by simp
    next
      assume "x = kind_name k"
      moreover have "\<not> rank (fst c') < rank k" using le c' by auto
      ultimately show ?thesis by (simp only: kind_name_after not_False_eq_True)
    qed
  qed
  have cnt: "\<forall>k'. unique_kind k' \<longrightarrow> count_list (map fst calls) k' \<le> 1"
  proof (intro allI impI)
    fix k' assume "unique_kind k'"
    then have "count_list (map fst (c # calls)) k' \<le> 1" using Cons.prems(4) by blast
    then show "count_list (map fst calls) k' \<le> 1" by (simp split: if_splits)
  qed
  have p3: "\<forall>c' \<in> set calls. \<not> has_flag (fst c') (?h1 ! length h)"
  proof
    fix c' assume c': "c' \<in> set calls"
    have "\<not> has_flag (fst c') ?b" using Cons.prems(3) c' by simp
    moreover have "\<not> (fst c' = k \<and> unique_kind k)"
    proof
      assume a: "fst c' = k \<and> unique_kind k"
      then have "count_list (map fst (c # calls)) k \<le> 1" using Cons.prems(4) by blast
      then have "count_list (map fst calls) k = 0" using c by simp
      then have "k \<notin> set (map fst calls)" by (simp add: count_list_0_iff)
      then show False using a c' by force
    qed
    ultimately show "\<not> has_flag (fst c') (?h1 ! length h)"
      by (simp only: obj has_flag_extend fst_conv) blast
  qed
  from Cons.IH [OF p1 p2 p3 cnt] obtain r h' where "chain calls (length h) ?h1 = (Inr r, h')"
    by blast
  then show ?case using step c by simp
qed

lemma chain_append:
  "chain (xs @ ys) this h =
     (case chain xs this h of (Inl e, h') \<Rightarrow> (Inl e, h') | (Inr r, h') \<Rightarrow> chain ys r h')"
  by (induction xs arbitrary: this h) (auto split: prod.splits sum.splits)

lemma stringify_fst: "fst (stringify this h) = result (h ! this)"
  by (simp add: stringify_def Let_def)

text \<open>The equations that evaluate a call on a concrete store.\<close>

lemmas call_defs =
  element_def id_sel_def class_sel_def attr_def pseudoClass_def pseudoElement_def
  throw_def return_new_def isOrderRight_def some_def includes_elem_def slice_def
  indexOf_def rightOrder_def cssSelectorBuilder_def template_def initial_heap_def
  stringify_def combine_def Let_def

section \<open>Properties of rendering and combining\<close>

lemma stringify_snd:
  "snd (stringify this h) = h[this := (h ! this)\<lparr>result := '''', currentOrder := []\<rparr>]"
  by (cases "this < length h") (simp_all add: stringify_def Let_def list_update_beyond)

lemma length_stringify [simp]: "length (snd (stringify this h)) = length h"
  by (simp add: stringify_snd)

lemma stringify_same:
  "this < length h \<Longrightarrow>
     snd (stringify this h) ! this = (h ! this)\<lparr>result := '''', currentOrder := []\<rparr>"
  by (simp add: stringify_snd)

lemma stringify_other:
  "a \<noteq> this \<Longrightarrow> snd (stringify this h) ! a = h ! a"
  by (simp add: stringify_snd)

lemma combine_eq:
  "combine this a c b h =
     (length h,
      snd (stringify b (snd (stringify a h))) @
        [(h ! this)\<lparr>result := fst (stringify a h) @ '' '' @ c @ '' '' @
                                 fst (stringify b (snd (stringify a h)))\<rparr>])"
  by (simp add: combine_def Let_def case_prod_beta)

lemma isOrderRight_empty: "currentOrder b = [] \<Longrightarrow> isOrderRight b s"
  by (simp add: isOrderRight_iff)

lemma combine_text:
  assumes "a < length h" and "b < length h"
  shows "result (snd (combine this a c b h) ! fst (combine this a c b h)) =
           result (h ! a) @ '' '' @ c @ '' '' @ (if a = b then '''' else result (h ! b))"
proof -
  have sb: "fst (stringify b (snd (stringify a h))) = (if a = b then '''' else result (h ! b))"
    using assms by (simp add: stringify_fst stringify_snd)
  show ?thesis
    by (simp add: combine_eq nth_append sb del: append_Cons)
       (simp add: stringify_fst)
qed

lemma combine_frame:
  assumes "d < length h" and "d \<noteq> a" and "d \<noteq> b"
  shows "snd (combine this a c b h) ! d = h ! d"
  using assms by (simp add: combine_eq nth_append stringify_snd)

section \<open>Frame properties and the template\<close>

lemma rank_le_5: "rank k \<le> 5"
  by (cases k) simp_all






section \<open>The claims\<close>

text \<open>
  C1. A chain of calls from the empty template whose kinds are in non-decreasing rank
  order, with at most one element, one id and one pseudo-element call, succeeds at every
  call, and rendering the object it returns yields the concatenation, in call order, of
  the rendered forms of its fragments. Classes, attributes and pseudo-classes are not
  limited in number.
\<close>

theorem ordered_chain_renders_concatenation:
  assumes "template < length h" and "h ! template = cssSelectorBuilder"
    and "sorted (map (\<lambda>c. rank (fst c)) calls)"
    and "count_list (map fst calls) Element \<le> 1"
    and "count_list (map fst calls) Id \<le> 1"
    and "count_list (map fst calls) PseudoElement \<le> 1"
  shows "\<exists>r h'. chain calls template h = (Inr r, h') \<and>
           fst (stringify r h') = concat (map rendered calls)"
proof -
  have cnt: "\<forall>k. unique_kind k \<longrightarrow> count_list (map fst calls) k \<le> 1"
  proof (intro allI impI)
    fix k assume "unique_kind k"
    then show "count_list (map fst calls) k \<le> 1" using assms(4-6) by (cases k) simp_all
  qed
  have ord: "\<forall>x \<in> set (currentOrder (h ! template)). \<forall>c \<in> set calls.
           x \<notin> set (slice rightOrder (indexOf rightOrder (kind_name (fst c)) + 1))"
    using assms(2) by (simp add: cssSelectorBuilder_def)
  have flg: "\<forall>c \<in> set calls. \<not> has_flag (fst c) (h ! template)"
  proof
    fix c show "\<not> has_flag (fst c) (h ! template)"
      using assms(2) by (cases "fst c") (simp_all add: cssSelectorBuilder_def)
  qed
  from chain_succeeds [OF assms(3) ord flg cnt]
  obtain r h' where run: "chain calls template h = (Inr r, h')" by blast
  from chain_Inr [OF run assms(1)]
  have "h' ! r = fold extend calls (h ! template)" by simp
  then have "result (h' ! r) = concat (map rendered calls)"
    using assms(2) by (simp add: result_fold_extend cssSelectorBuilder_def)
  then show ?thesis using run by (simp add: stringify_fst)
qed

theorem ordered_chain_renders_concatenation_witness:
  "\<exists>r h'. chain [(Element, ''div''), (Id, ''main''), (Class, ''container''),
                  (Class, ''draggable''), (Attribute, ''href''), (PseudoClass, ''focus''),
                  (PseudoClass, ''hover''), (PseudoElement, ''after'')]
            template initial_heap = (Inr r, h') \<and>
          fst (stringify r h') = ''div#main.container.draggable[href]:focus:hover::after''"
  using ordered_chain_renders_concatenation
    [of initial_heap "[(Element, ''div''), (Id, ''main''), (Class, ''container''),
                  (Class, ''draggable''), (Attribute, ''href''), (PseudoClass, ''focus''),
                  (PseudoClass, ''hover''), (PseudoElement, ''after'')]"]
  by (simp add: template_def initial_heap_def)

text \<open>
  C2. For every object of the store and every kind \<open>k\<close>: when the kind sequence of the
  object holds a kind of rank strictly greater than the rank of \<open>k\<close>, the call adding a
  fragment of kind \<open>k\<close> throws the error with the message naming the required order, and
  the store is as before.
\<close>

theorem out_of_order_call_fails:
  assumes "this < length h"
    and "kind_name k' \<in> set (currentOrder (h ! this))"
    and "rank k < rank k'"
  shows "add_fragment k val this h = (Inl (Error order_message), h)"
proof -
  have "kind_name k' \<in> set (slice rightOrder (indexOf rightOrder (kind_name k) + 1))"
    using assms(3) by (simp only: kind_name_after)
  then have "\<not> isOrderRight (h ! this) (kind_name k)"
    using assms(2) by (auto simp add: isOrderRight_iff)
  then show ?thesis by (simp add: add_fragment_eq)
qed

theorem out_of_order_call_fails_witness:
  "add_fragment Id ''main'' 1 (snd (class_sel ''container'' template initial_heap)) =
     (Inl (Error order_message), snd (class_sel ''container'' template initial_heap))"
  using out_of_order_call_fails
    [of 1 "snd (class_sel ''container'' template initial_heap)" Class Id "''main''"]
  by (simp add: call_defs)

text \<open>
  C3 as stated fails where a kind of higher rank lies between the two calls: the second
  element call after an id call throws the order error, not the uniqueness error.
\<close>

theorem second_element_after_id_counterexample:
  "fst (chain [(Element, ''table''), (Id, ''data''), (Element, ''div'')] template initial_heap) =
     Inl (Error order_message) \<and>
   fst (chain [(Element, ''table''), (Id, ''data''), (Element, ''div'')] template initial_heap) \<noteq>
     Inl (Error unique_message)"
  by (simp add: call_defs order_message_def unique_message_def)

text \<open>
  C3, as amended. After a chain from the empty template that holds a call of kind element,
  id or pseudo-element, a further call of that kind throws: the uniqueness error when no
  kind of higher rank was added in the chain, the order error otherwise, for the order
  is checked first. A further pseudo-element call always throws the uniqueness error.
\<close>

theorem repeated_unique_kind_fails:
  assumes "template < length h" and "h ! template = cssSelectorBuilder"
    and "chain calls template h = (Inr r, h')"
    and "unique_kind k" and "k \<in> fst ` set calls"
  shows "add_fragment k val r h' =
           (Inl (Error (if \<forall>c \<in> set calls. rank (fst c) \<le> rank k
                        then unique_message else order_message)), h') \<and>
         (k = PseudoElement \<longrightarrow> add_fragment k val r h' = (Inl (Error unique_message), h'))"
proof -
  from chain_Inr [OF assms(3,1)]
  have obj: "h' ! r = fold extend calls cssSelectorBuilder" using assms(2) by simp
  have co: "currentOrder (h' ! r) = map (kind_name \<circ> fst) calls"
    by (simp add: obj currentOrder_fold_extend cssSelectorBuilder_def)
  have flg: "has_flag k (h' ! r)"
    using assms(4,5) by (simp add: obj has_flag_fold_extend)
  have ord: "isOrderRight (h' ! r) (kind_name k) \<longleftrightarrow> (\<forall>c \<in> set calls. rank (fst c) \<le> rank k)"
    by (simp add: isOrderRight_iff co kind_name_after not_less)
  have first: "add_fragment k val r h' =
           (Inl (Error (if \<forall>c \<in> set calls. rank (fst c) \<le> rank k
                        then unique_message else order_message)), h')"
    using flg ord by (simp add: add_fragment_eq)
  have second: "add_fragment k val r h' = (Inl (Error unique_message), h')" if "k = PseudoElement"
  proof -
    have "\<forall>c \<in> set calls. rank (fst c) \<le> rank k" using that rank_le_5 by simp
    then show ?thesis using first by (simp del: add_fragment.simps)
  qed
  show ?thesis using first second by blast
qed

theorem repeated_unique_kind_fails_witness:
  "add_fragment Element ''div'' 1 (snd (element ''table'' template initial_heap)) =
     (Inl (Error unique_message), snd (element ''table'' template initial_heap)) \<and>
   add_fragment Element ''div'' 2
       (snd (chain [(Element, ''table''), (Id, ''data'')] template initial_heap)) =
     (Inl (Error order_message),
      snd (chain [(Element, ''table''), (Id, ''data'')] template initial_heap))"
proof -
  have t: "template < length initial_heap" "initial_heap ! template = cssSelectorBuilder"
    by (simp_all add: initial_heap_def template_def)
  have c1: "chain [(Element, ''table'')] template initial_heap =
      (Inr 1, snd (element ''table'' template initial_heap))"
    by (simp add: call_defs)
  have c2: "chain [(Element, ''table''), (Id, ''data'')] template initial_heap =
      (Inr 2, snd (chain [(Element, ''table''), (Id, ''data'')] template initial_heap))"
    by (simp add: call_defs)
  have u: "unique_kind Element" by simp
  have m1: "Element \<in> fst ` set [(Element, ''table'')]" by simp
  have m2: "Element \<in> fst ` set [(Element, ''table''), (Id, ''data'')]" by simp
  from repeated_unique_kind_fails [OF t c1 u m1, of "''div''"]
       repeated_unique_kind_fails [OF t c2 u m2, of "''div''"]
  show ?thesis by simp
qed

text \<open>
  C4 as stated fails where both operands are the same object: its text appears once,
  for the first rendering clears it before the second reads it.
\<close>

theorem combine_same_operand_counterexample:
  "result (snd (element ''div'' template initial_heap) ! 1) = ''div'' \<and>
   fst (stringify
         (fst (combine template 1 ''+'' 1 (snd (element ''div'' template initial_heap))))
         (snd (combine template 1 ''+'' 1 (snd (element ''div'' template initial_heap))))) =
     ''div + '' \<and>
   fst (stringify
         (fst (combine template 1 ''+'' 1 (snd (element ''div'' template initial_heap))))
         (snd (combine template 1 ''+'' 1 (snd (element ''div'' template initial_heap))))) \<noteq>
     result (snd (element ''div'' template initial_heap) ! 1) @ '' '' @ ''+'' @ '' '' @
     result (snd (element ''div'' template initial_heap) ! 1)"
  by (simp add: call_defs)

text \<open>
  C4, as amended. For operands \<open>a\<close> and \<open>b\<close> that are different objects, rendering the object
  \<open>combine\<close> returns yields the text of \<open>a\<close>, a space, the combinator, a space, and the
  text of \<open>b\<close>, the texts being those the operands hold when \<open>combine\<close> is called; when \<open>a\<close>
  and \<open>b\<close> are the same object the part after the second space is empty, for the first
  rendering has cleared the operand. Nesting composes for three different objects:
  combining the result of \<open>combine this a c b\<close> with \<open>d\<close> renders the three texts joined by
  the two combinators.
\<close>

theorem combine_renders_joined_text:
  assumes "a < length h" and "b < length h"
  shows "fst (stringify (fst (combine this a c b h)) (snd (combine this a c b h))) =
           result (h ! a) @ '' '' @ c @ '' '' @ (if a = b then '''' else result (h ! b)) \<and>
         (d < length h \<and> a \<noteq> b \<and> d \<noteq> a \<and> d \<noteq> b \<longrightarrow>
           fst (stringify
                 (fst (combine this' (fst (combine this a c b h)) c' d (snd (combine this a c b h))))
                 (snd (combine this' (fst (combine this a c b h)) c' d (snd (combine this a c b h))))) =
             result (h ! a) @ '' '' @ c @ '' '' @ result (h ! b) @ '' '' @ c' @ '' '' @ result (h ! d))"
proof -
  let ?r = "fst (combine this a c b h)"
  let ?h' = "snd (combine this a c b h)"
  have res: "result (?h' ! ?r) =
      result (h ! a) @ '' '' @ c @ '' '' @ (if a = b then '''' else result (h ! b))"
    using assms by (rule combine_text)
  have second: "fst (stringify (fst (combine this' ?r c' d ?h')) (snd (combine this' ?r c' d ?h'))) =
      result (h ! a) @ '' '' @ c @ '' '' @ result (h ! b) @ '' '' @ c' @ '' '' @ result (h ! d)"
    if d: "d < length h" and ne: "a \<noteq> b" "d \<noteq> a" "d \<noteq> b"
  proof -
    have r: "?r = length h" by (simp add: combine_eq)
    have len: "length ?h' = Suc (length h)" by (simp add: combine_eq)
    have rv: "?r < length ?h'" and dv: "d < length ?h'" using r len d by simp_all
    have rd: "?r \<noteq> d" using r d by simp
    have hd: "?h' ! d = h ! d" using d ne(2,3) by (rule combine_frame)
    have "result (snd (combine this' ?r c' d ?h') ! fst (combine this' ?r c' d ?h')) =
        result (?h' ! ?r) @ '' '' @ c' @ '' '' @ (if ?r = d then '''' else result (?h' ! d))"
      using rv dv by (rule combine_text)
    then show ?thesis using rd hd res ne(1) by (simp add: stringify_fst)
  qed
  show ?thesis using res second by (simp add: stringify_fst)
qed

theorem combine_renders_joined_text_witness:
  "fst (stringify
         (fst (combine template 1 ''+'' 2
                (build_all [[(Element, ''div'')], [(Element, ''table'')], [(Element, ''tr'')]]
                   initial_heap)))
         (snd (combine template 1 ''+'' 2
                (build_all [[(Element, ''div'')], [(Element, ''table'')], [(Element, ''tr'')]]
                   initial_heap)))) = ''div + table'' \<and>
   fst (stringify
         (fst (combine template
                (fst (combine template 1 ''+'' 2
                  (build_all [[(Element, ''div'')], [(Element, ''table'')], [(Element, ''tr'')]]
                     initial_heap)))
                ''~'' 3
                (snd (combine template 1 ''+'' 2
                  (build_all [[(Element, ''div'')], [(Element, ''table'')], [(Element, ''tr'')]]
                     initial_heap)))))
         (snd (combine template
                (fst (combine template 1 ''+'' 2
                  (build_all [[(Element, ''div'')], [(Element, ''table'')], [(Element, ''tr'')]]
                     initial_heap)))
                ''~'' 3
                (snd (combine template 1 ''+'' 2
                  (build_all [[(Element, ''div'')], [(Element, ''table'')], [(Element, ''tr'')]]
                     initial_heap)))))) = ''div + table ~ tr''"
  using combine_renders_joined_text
    [where a = 1 and b = 2 and d = 3 and this = template and c = "''+''"
       and this' = template and c' = "''~''"
       and h = "build_all [[(Element, ''div'')], [(Element, ''table'')], [(Element, ''tr'')]]
                  initial_heap"]
  by (simp add: call_defs)






text \<open>
  C7. A call that throws produces no object and leaves the store, hence its receiver, as
  it was; the error is one of the two validation errors; and a chain in which the call
  occurs ends with that error, whatever calls follow.
\<close>

theorem failed_call_changes_nothing:
  assumes "add_fragment k val this h = (Inl e, h')"
  shows "h' = h \<and> (e = Error order_message \<or> e = Error unique_message) \<and>
         (\<forall>pre start h0 rest. chain pre start h0 = (Inr this, h) \<longrightarrow>
            chain (pre @ (k, val) # rest) start h0 = (Inl e, h))"
proof -
  from add_fragment_Inl [OF assms]
  have a: "h' = h" and b: "e = Error order_message \<or> e = Error unique_message" by simp_all
  have "chain (pre @ (k, val) # rest) start h0 = (Inl e, h)"
    if "chain pre start h0 = (Inr this, h)" for pre start h0 rest
    using that assms a by (simp add: chain_append)
  then show ?thesis using a b by blast
qed

theorem failed_call_changes_nothing_witness:
  "add_fragment Element ''div'' 1 (snd (element ''table'' template initial_heap)) =
     (Inl (Error unique_message), snd (element ''table'' template initial_heap)) \<and>
   chain [(Element, ''table''), (Element, ''div''), (Class, ''c'')] template initial_heap =
     (Inl (Error unique_message), snd (element ''table'' template initial_heap))"
proof -
  let ?h = "snd (element ''table'' template initial_heap)"
  have step: "add_fragment Element ''div'' 1 ?h = (Inl (Error unique_message), ?h)"
    by (simp add: call_defs)
  have pre: "chain [(Element, ''table'')] template initial_heap = (Inr 1, ?h)"
    by (simp add: call_defs)
  from failed_call_changes_nothing [OF step] pre
  have "chain ([(Element, ''table'')] @ (Element, ''div'') # [(Class, ''c'')]) template initial_heap =
     (Inl (Error unique_message), ?h)" by blast
  then show ?thesis using step by simp
qed

text \<open>
  C8. For all numbers \<open>w\<close> and \<open>h\<close>, the object \<open>Rectangle w h\<close> has width \<open>w\<close>, height \<open>h\<close>
  and its method \<open>getArea\<close> returns \<open>w * h\<close>; \<open>Rectangle 10 20\<close> has area \<open>200\<close>.
\<close>

theorem Rectangle_area:
  "width (Rectangle w h) = w \<and> height (Rectangle w h) = h \<and>
   getArea (Rectangle w h) = w * h \<and> getArea (Rectangle (10::int) 20) = 200"
  by (simp add: Rectangle_def getArea_def)

text \<open>
  C9. \<open>stringify\<close> returns the text of its receiver and leaves the receiver with the
  empty text and the empty kind sequence, its three flags as they were. So a receiver
  whose flag for element, id or pseudo-element is set rejects, after rendering, a new
  fragment of that kind with the uniqueness error, although its text is empty.
\<close>

theorem stringify_clears_text_keeps_flags:
  assumes "this < length h"
  shows "fst (stringify this h) = result (h ! this) \<and>
         result (snd (stringify this h) ! this) = '''' \<and>
         currentOrder (snd (stringify this h) ! this) = [] \<and>
         isSelectorHaveElement (snd (stringify this h) ! this) = isSelectorHaveElement (h ! this) \<and>
         isSelectorHaveId (snd (stringify this h) ! this) = isSelectorHaveId (h ! this) \<and>
         isSelectorHavePseudoElement (snd (stringify this h) ! this) =
           isSelectorHavePseudoElement (h ! this) \<and>
         (isSelectorHaveElement (h ! this) \<longrightarrow>
            element val this (snd (stringify this h)) =
              (Inl (Error unique_message), snd (stringify this h))) \<and>
         (isSelectorHaveId (h ! this) \<longrightarrow>
            id_sel val this (snd (stringify this h)) =
              (Inl (Error unique_message), snd (stringify this h))) \<and>
         (isSelectorHavePseudoElement (h ! this) \<longrightarrow>
            pseudoElement val this (snd (stringify this h)) =
              (Inl (Error unique_message), snd (stringify this h)))"
proof -
  let ?h' = "snd (stringify this h)"
  have obj: "?h' ! this = (h ! this)\<lparr>result := '''', currentOrder := []\<rparr>"
    using assms by (rule stringify_same)
  have ord: "isOrderRight (?h' ! this) s" for s
    by (rule isOrderRight_empty) (simp add: obj)
  have rej: "add_fragment k val this ?h' = (Inl (Error unique_message), ?h')"
    if "has_flag k (h ! this)" for k
  proof -
    have "has_flag k (?h' ! this) = has_flag k (h ! this)"
      by (cases k) (simp_all add: obj)
    then show ?thesis using that ord by (simp add: add_fragment_eq)
  qed
  have e: "isSelectorHaveElement (h ! this) \<longrightarrow>
      element val this ?h' = (Inl (Error unique_message), ?h')"
    using rej [of Element] by simp
  have i: "isSelectorHaveId (h ! this) \<longrightarrow>
      id_sel val this ?h' = (Inl (Error unique_message), ?h')"
    using rej [of Id] by simp
  have p: "isSelectorHavePseudoElement (h ! this) \<longrightarrow>
      pseudoElement val this ?h' = (Inl (Error unique_message), ?h')"
    using rej [of PseudoElement] by simp
  have fields: "fst (stringify this h) = result (h ! this) \<and>
         result (?h' ! this) = '''' \<and> currentOrder (?h' ! this) = [] \<and>
         isSelectorHaveElement (?h' ! this) = isSelectorHaveElement (h ! this) \<and>
         isSelectorHaveId (?h' ! this) = isSelectorHaveId (h ! this) \<and>
         isSelectorHavePseudoElement (?h' ! this) = isSelectorHavePseudoElement (h ! this)"
    by (simp add: obj stringify_fst)
  show ?thesis using fields e i p by blast
qed

theorem stringify_clears_text_keeps_flags_witness:
  "fst (stringify 1 (snd (element ''div'' template initial_heap))) = ''div'' \<and>
   result (snd (stringify 1 (snd (element ''div'' template initial_heap))) ! 1) = '''' \<and>
   isSelectorHaveElement (snd (stringify 1 (snd (element ''div'' template initial_heap))) ! 1) \<and>
   element ''span'' 1 (snd (stringify 1 (snd (element ''div'' template initial_heap)))) =
     (Inl (Error unique_message), snd (stringify 1 (snd (element ''div'' template initial_heap))))"
  using stringify_clears_text_keeps_flags
    [of 1 "snd (element ''div'' template initial_heap)" "''span''"]
  by (simp add: call_defs)

text \<open>
  C10. After \<open>combine this a c b\<close> both operands hold the empty text, and rendering either
  of them afterwards (in either order) yields the empty string.
\<close>

theorem combine_clears_operands:
  assumes "a < length h" and "b < length h"
  shows "result (snd (combine this a c b h) ! a) = '''' \<and>
         result (snd (combine this a c b h) ! b) = '''' \<and>
         fst (stringify a (snd (combine this a c b h))) = '''' \<and>
         fst (stringify b (snd (combine this a c b h))) = '''' \<and>
         fst (stringify b (snd (stringify a (snd (combine this a c b h))))) = '''' \<and>
         fst (stringify a (snd (stringify b (snd (combine this a c b h))))) = ''''"
proof -
  let ?h2 = "snd (stringify b (snd (stringify a h)))"
  let ?h' = "snd (combine this a c b h)"
  have len: "length ?h2 = length h" by simp
  have a: "?h' ! a = ?h2 ! a" and b: "?h' ! b = ?h2 ! b"
    using assms len by (simp_all add: combine_eq nth_append)
  have rb: "result (?h2 ! b) = ''''" using assms by (simp add: stringify_same)
  have ra: "result (?h2 ! a) = ''''"
  proof (cases "a = b")
    case True
    then show ?thesis using rb by simp
  next
    case False
    then show ?thesis using assms by (simp add: stringify_other stringify_same)
  qed
  have ra': "result (?h' ! a) = ''''" and rb': "result (?h' ! b) = ''''"
    using a b ra rb by simp_all
  have "result (snd (stringify a ?h') ! b) = ''''"
    using rb' assms by (cases "a = b") (simp_all add: stringify_snd combine_eq)
  moreover have "result (snd (stringify b ?h') ! a) = ''''"
    using ra' assms by (cases "a = b") (simp_all add: stringify_snd combine_eq)
  ultimately show ?thesis using ra' rb' by (simp add: stringify_fst)
qed

theorem combine_clears_operands_witness:
  "result (snd (combine template 1 ''+'' 2
             (snd (chain [(Element, ''table''), (Id, ''data'')] template initial_heap))) ! 1) = '''' \<and>
   fst (stringify 2 (snd (combine template 1 ''+'' 2
             (snd (chain [(Element, ''table''), (Id, ''data'')] template initial_heap))))) = ''''"
  using combine_clears_operands
    [where a = 1 and b = 2 and this = template and c = "''+''"
       and h = "snd (chain [(Element, ''table''), (Id, ''data'')] template initial_heap)"]
  by (simp add: call_defs)

end
